theory Spec2Isabelle
  imports Complex_Main
begin

section \<open>Scroll synchronisation of the split Markdown editor\<close>

text \<open>
  The development embeds the pure helpers and the stateful handlers of
  \<^verbatim>\<open>src/components/MilkdownEditor.tsx\<close>. A JavaScript \<^verbatim>\<open>number\<close> is read as a
  real number: every quantity is finite and arithmetic is exact, so rounding of IEEE
  doubles, \<^verbatim>\<open>NaN\<close> and the infinities are outside the model. Array lengths and indices
  are natural numbers.
\<close>

subsection \<open>The piecewise mapper\<close>

text \<open>\<^verbatim>\<open>clamp(value, min, max) = Math.min(max, Math.max(min, value))\<close>\<close>

definition clamp :: "real \<Rightarrow> real \<Rightarrow> real \<Rightarrow> real" where
  "clamp v lo hi = min hi (max lo v)"

text \<open>
  \<^verbatim>\<open>stops[i] ?? d\<close>: an index outside the array reads \<^verbatim>\<open>undefined\<close>, and the
  nullish operator then yields the default.
\<close>

definition nth_or :: "real list \<Rightarrow> int \<Rightarrow> real \<Rightarrow> real" where
  "nth_or stops i d = (if 0 \<le> i \<and> i < int (length stops) then stops ! nat i else d)"

text \<open>The callback of \<^verbatim>\<open>Array.from\<close> in \<^verbatim>\<open>resampleStops\<close>, at index \<open>j\<close>.\<close>

definition resampleAt :: "real list \<Rightarrow> nat \<Rightarrow> nat \<Rightarrow> real" where
  "resampleAt stops nextLen j =
     (let maxIndex = int (length stops) - 1;
          f = (if nextLen = 1 then 0 else real j / (real nextLen - 1));
          x = f * real_of_int maxIndex;
          i = \<lfloor>x\<rfloor>;
          t = x - real_of_int i;
          a = nth_or stops i (stops ! nat maxIndex);
          b = nth_or stops (min (i + 1) maxIndex) (stops ! nat maxIndex)
      in a + (b - a) * t)"

definition resampleStops :: "real list \<Rightarrow> nat \<Rightarrow> real list" where
  "resampleStops stops nextLen =
     (if nextLen \<le> 0 then []
      else if length stops = nextLen then stops
      else if length stops = 0 then replicate nextLen 0
      else if length stops = 1 then replicate nextLen (stops ! 0)
      else map (resampleAt stops nextLen) [0..<nextLen])"

text \<open>
  The loop \<^verbatim>\<open>while (i < len - 2 && top > fStops[i + 1]) i++\<close>; it returns the final
  \<open>i\<close>. The comparison \<open>i < len - 2\<close> is over the integers, as in the source.
\<close>

function scanStops :: "real \<Rightarrow> real list \<Rightarrow> nat \<Rightarrow> nat \<Rightarrow> nat" where
  "scanStops tp fStops len i =
     (if int i < int len - 2 \<and> tp > fStops ! (i + 1)
      then scanStops tp fStops len (i + 1) else i)"
  by pat_completeness auto
termination
  by (relation "measure (\<lambda>(tp, fStops, len, i). len - i)") auto

definition mapScrollTop :: "real \<Rightarrow> real list \<Rightarrow> real list \<Rightarrow> real \<Rightarrow> real \<Rightarrow> real" where
  "mapScrollTop fromTop fromStops toStops fromMax toMax =
     (if fromMax \<le> 0 \<or> toMax \<le> 0 then
        (let ratio = (if fromMax \<le> 0 then 0 else clamp (fromTop / fromMax) 0 1)
         in ratio * toMax)
      else
        (let from = (if length fromStops \<ge> 2 then fromStops else [0, fromMax]);
             to = (if length toStops \<ge> 2 then toStops else [0, toMax]);
             len = max 2 (min (length from) (length to));
             fStops = resampleStops from len;
             tStops = resampleStops to len;
             tp = clamp fromTop 0 fromMax;
             i = scanStops tp fStops len 0;
             a = fStops ! i;
             b = fStops ! (i + 1);
             t = (if b = a then 0 else clamp ((tp - a) / (b - a)) 0 1)
         in tStops ! i + (tStops ! (i + 1) - tStops ! i) * t))"


subsection \<open>Stop extraction\<close>

text \<open>
  A JavaScript string is a sequence of UTF-16 code units, here natural numbers:
  \<open>10\<close> is the line feed and \<open>35\<close> is \<^verbatim>\<open>#\<close>.
\<close>

type_synonym jsstring = "nat list"

text \<open>
  The characters matched by \<^verbatim>\<open>\s\<close> in a regular expression, which are also the
  ones removed by \<^verbatim>\<open>String.prototype.trim\<close> (white space and line terminators).
\<close>

definition isWhiteSpace :: "nat \<Rightarrow> bool" where
  "isWhiteSpace c =
     (c \<in> {9, 10, 11, 12, 13, 32, 160, 5760, 8232, 8233, 8239, 8287, 12288, 65279}
      \<or> (8192 \<le> c \<and> c \<le> 8202))"

definition trim :: "jsstring \<Rightarrow> jsstring" where
  "trim str = rev (dropWhile isWhiteSpace (rev (dropWhile isWhiteSpace str)))"

text \<open>\<^verbatim>\<open>markdown.split("\n")\<close>: the result always has at least one line.\<close>

fun splitLines :: "jsstring \<Rightarrow> jsstring list" where
  "splitLines [] = [[]]"
| "splitLines (c # cs) =
     (if c = 10 then [] # splitLines cs
      else (case splitLines cs of [] \<Rightarrow> [[c]] | l # ls \<Rightarrow> (c # l) # ls))"

text \<open>
  The test \<^verbatim>\<open>/^#{1,6}\s+/\<close>: the line starts with one to six \<^verbatim>\<open>#\<close>, and the
  character after the run of \<^verbatim>\<open>#\<close> is white space.
\<close>

definition isHeadingLine :: "jsstring \<Rightarrow> bool" where
  "isHeadingLine line =
     (let n = length (takeWhile (\<lambda>c. c = 35) line)
      in 1 \<le> n \<and> n \<le> 6 \<and> n < length line \<and> isWhiteSpace (line ! n))"

definition extractHeadingLineStarts :: "jsstring \<Rightarrow> nat list" where
  "extractHeadingLineStarts markdown =
     (let lines = splitLines markdown
      in filter (\<lambda>i. isHeadingLine (lines ! i)) [0..<length lines])"

text \<open>
  \<^verbatim>\<open>Array.from(new Set(starts))\<close> keeps the first occurrence of every value, in
  insertion order.
\<close>

definition uniqueInOrder :: "nat list \<Rightarrow> nat list" where
  "uniqueInOrder xs = rev (remdups (rev xs))"

definition extractBlockLineStarts :: "jsstring \<Rightarrow> nat list" where
  "extractBlockLineStarts markdown =
     (let lines = splitLines markdown;
          starts = 0 # filter (\<lambda>i. trim (lines ! (i - 1)) = [] \<and> trim (lines ! i) \<noteq> [])
                         [1..<length lines]
      in sort (uniqueInOrder starts))"

text \<open>
  The layout of a scrollable element, as the code reads it: \<open>rectTop\<close> is
  \<^verbatim>\<open>getBoundingClientRect().top\<close>, and \<open>lineHeightCss\<close> is
  \<^verbatim>\<open>parseFloat(getComputedStyle(el).lineHeight)\<close>, with \<open>None\<close> for a result that
  is not finite.
\<close>

record element =
  scrollHeight :: real
  clientHeight :: real
  scrollTop :: real
  rectTop :: real
  lineHeightCss :: "real option"

definition getLineHeightPx :: "element \<Rightarrow> real" where
  "getLineHeightPx el =
     (case lineHeightCss el of
        None \<Rightarrow> 20
      | Some lh \<Rightarrow> if lh = 0 then 20 else lh)"

text \<open>
  The view of the rendering engine: \<open>descendants\<close> lists every node of the document in
  traversal order, as (is a heading, position); \<open>topLevel\<close> lists the offsets of the
  top-level blocks visited by \<^verbatim>\<open>doc.forEach\<close>; \<open>coordsAtPos\<close> gives the \<^verbatim>\<open>top\<close>
  coordinate at a position, or \<open>None\<close> where the query throws.
\<close>

record view =
  descendants :: "(bool \<times> nat) list"
  topLevel :: "nat list"
  coordsAtPos :: "nat \<Rightarrow> real option"

record Stops =
  sourceStops :: "real list"
  editorStops :: "real list"

text \<open>
  \<^verbatim>\<open>arr.filter((x, idx, arr) => idx === 0 || x >= (arr[idx - 1] ?? 0))\<close>: an element
  is compared with its predecessor in the unfiltered array.
\<close>

definition keepNonDecreasing :: "real list \<Rightarrow> real list" where
  "keepNonDecreasing arr =
     map (\<lambda>idx. arr ! idx)
       (filter (\<lambda>idx. idx = 0 \<or> arr ! idx \<ge> nth_or arr (int idx - 1) 0) [0..<length arr])"

text \<open>The reducer that drops a stop within half a pixel of the last kept one.\<close>

definition dedupeStep :: "real list \<Rightarrow> real \<Rightarrow> real list" where
  "dedupeStep acc x =
     (if length acc = 0 \<or> \<bar>x - acc ! (length acc - 1)\<bar> > 0.5 then acc @ [x] else acc)"

definition dedupeStops :: "real list \<Rightarrow> real list" where
  "dedupeStops xs = foldl dedupeStep [] xs"

datatype pane = Source | Editor

text \<open>
  The refs of the component that the scroll synchronisation reads and writes. A pending
  scroll keeps its target; its element is the pane's own.
\<close>

record sync_state =
  sourceRef :: "element option"
  wysiwygScrollRef :: "element option"
  stopsRef :: Stops
  pendingScrollsRef :: "pane \<Rightarrow> real option"
  syncRafRef :: bool
  syncLockRef :: "pane option"
  syncLockUntilRef :: real

definition editorAnchor :: "view \<Rightarrow> element \<Rightarrow> real \<Rightarrow> nat \<Rightarrow> real list" where
  "editorAnchor vw editorScrollEl editorMax pos =
     (case coordsAtPos vw (pos + 1) of
        None \<Rightarrow> []
      | Some c \<Rightarrow> [clamp (c - rectTop editorScrollEl + scrollTop editorScrollEl) 0 editorMax])"

text \<open>
  \<open>recomputeStops md vw s\<close>: \<open>md\<close> is \<^verbatim>\<open>markdownRef.current\<close> and \<open>vw\<close> the result of
  \<^verbatim>\<open>getEditorView()\<close>.
\<close>

definition recomputeStops :: "jsstring \<Rightarrow> view option \<Rightarrow> sync_state \<Rightarrow> sync_state" where
  "recomputeStops md vw s =
     (case (sourceRef s, wysiwygScrollRef s, vw) of
        (Some sourceEl, Some editorScrollEl, Some v) \<Rightarrow>
          (let sourceMax = max 0 (scrollHeight sourceEl - clientHeight sourceEl);
               editorMax = max 0 (scrollHeight editorScrollEl - clientHeight editorScrollEl);
               lineHeight = getLineHeightPx sourceEl;
               headingLines = extractHeadingLineStarts md;
               blockLines = extractBlockLineStarts md;
               sourceLines = (if length headingLines \<ge> 2 then headingLines else blockLines);
               srcStops = dedupeStops (keepNonDecreasing
                 ([0] @ map (\<lambda>line. clamp (real line * lineHeight) 0 sourceMax) sourceLines
                      @ [sourceMax]));
               editorHeadingStops =
                 concat (map (\<lambda>(heading, pos).
                   if heading then editorAnchor v editorScrollEl editorMax pos else [])
                   (descendants v));
               editorBlockStops =
                 concat (map (editorAnchor v editorScrollEl editorMax) (topLevel v));
               editorAnchorsRaw =
                 (if length editorHeadingStops \<ge> 2 then editorHeadingStops
                  else editorBlockStops);
               edStops = dedupeStops (sort ([0] @ editorAnchorsRaw @ [editorMax]))
           in s\<lparr>stopsRef := \<lparr>sourceStops = srcStops, editorStops = edStops\<rparr>\<rparr>)
      | _ \<Rightarrow> s)"

subsection \<open>Scroll sync controller\<close>

text \<open>The time read by \<^verbatim>\<open>performance.now()\<close> is the argument \<open>now\<close>.\<close>

definition acquireLock :: "pane \<Rightarrow> real \<Rightarrow> real \<Rightarrow> sync_state \<Rightarrow> sync_state" where
  "acquireLock who now ms s = s\<lparr>syncLockRef := Some who, syncLockUntilRef := now + ms\<rparr>"

definition isLockedByOther :: "pane \<Rightarrow> real \<Rightarrow> sync_state \<Rightarrow> bool \<times> sync_state" where
  "isLockedByOther who now s =
     (case syncLockRef s of
        None \<Rightarrow> (False, s)
      | Some locked \<Rightarrow>
          if now > syncLockUntilRef s then (False, s\<lparr>syncLockRef := None\<rparr>)
          else (locked \<noteq> who, s))"

text \<open>
  \<open>scheduleScrollTop\<close> records the pending write and requests an animation frame unless
  one is requested already; \<open>flushScrolls\<close> is the frame callback.
\<close>

definition scheduleScrollTop :: "pane \<Rightarrow> real \<Rightarrow> sync_state \<Rightarrow> sync_state" where
  "scheduleScrollTop key target s =
     (let s1 = s\<lparr>pendingScrollsRef := (pendingScrollsRef s)(key := Some target)\<rparr>
      in if syncRafRef s1 then s1 else s1\<lparr>syncRafRef := True\<rparr>)"

definition applyScroll :: "real option \<Rightarrow> element option \<Rightarrow> element option" where
  "applyScroll p el =
     (case (p, el) of
        (Some target, Some e) \<Rightarrow>
          (let mx = max 0 (scrollHeight e - clientHeight e);
               next = clamp target 0 mx
           in if \<bar>scrollTop e - next\<bar> > 0.5 then Some (e\<lparr>scrollTop := next\<rparr>) else Some e)
      | _ \<Rightarrow> el)"

definition flushScrolls :: "sync_state \<Rightarrow> sync_state" where
  "flushScrolls s =
     (let pending = pendingScrollsRef s
      in s\<lparr>syncRafRef := False,
           pendingScrollsRef := (\<lambda>_. None),
           sourceRef := applyScroll (pending Source) (sourceRef s),
           wysiwygScrollRef := applyScroll (pending Editor) (wysiwygScrollRef s)\<rparr>)"

text \<open>
  The scroll handlers. \<open>now\<close> is the time read by the lock check and \<open>now'\<close> the time
  read when the lock is acquired.
\<close>

definition syncSourceToEditor :: "real \<Rightarrow> real \<Rightarrow> sync_state \<Rightarrow> sync_state" where
  "syncSourceToEditor now now' s =
     (case isLockedByOther Source now s of
        (True, s1) \<Rightarrow> s1
      | (False, s1) \<Rightarrow>
          (case (sourceRef s1, wysiwygScrollRef s1) of
             (Some sourceEl, Some editorEl) \<Rightarrow>
               (let sourceMax = max 0 (scrollHeight sourceEl - clientHeight sourceEl);
                    editorMax = max 0 (scrollHeight editorEl - clientHeight editorEl);
                    target = mapScrollTop (scrollTop sourceEl)
                               (sourceStops (stopsRef s1)) (editorStops (stopsRef s1))
                               sourceMax editorMax
                in scheduleScrollTop Editor target (acquireLock Source now' 260 s1))
           | _ \<Rightarrow> s1))"

definition syncEditorToSource :: "real \<Rightarrow> real \<Rightarrow> sync_state \<Rightarrow> sync_state" where
  "syncEditorToSource now now' s =
     (case isLockedByOther Editor now s of
        (True, s1) \<Rightarrow> s1
      | (False, s1) \<Rightarrow>
          (case (sourceRef s1, wysiwygScrollRef s1) of
             (Some sourceEl, Some editorEl) \<Rightarrow>
               (let sourceMax = max 0 (scrollHeight sourceEl - clientHeight sourceEl);
                    editorMax = max 0 (scrollHeight editorEl - clientHeight editorEl);
                    target = mapScrollTop (scrollTop editorEl)
                               (editorStops (stopsRef s1)) (sourceStops (stopsRef s1))
                               editorMax sourceMax
                in scheduleScrollTop Source target (acquireLock Editor now' 260 s1))
           | _ \<Rightarrow> s1))"


subsection \<open>Edit propagation controller\<close>

text \<open>
  The state and refs read and written by the edit propagation: \<open>markdown\<close> is the React
  state, \<open>editorReady\<close> tells whether \<^verbatim>\<open>get()\<close> returns an editor, \<open>timer\<close> is the pending
  \<^verbatim>\<open>setTimeout\<close> of the debounce effect (its due time and the text it captured),
  \<open>microtasks\<close> counts the queued microtasks that clear the flag, and \<open>replaceCalls\<close>
  logs every \<^verbatim>\<open>replaceAll(markdown, true)\<close> handed to the engine, with its time.
\<close>

record edit_state =
  markdown :: jsstring
  markdownRef :: jsstring
  applyingFromSourceRef :: bool
  lastMarkdownFromEditorRef :: jsstring
  editorReady :: bool
  timer :: "(real \<times> jsstring) option"
  microtasks :: nat
  replaceCalls :: "(real \<times> jsstring) list"

text \<open>
  The debounce effect after a commit that changed \<open>markdown\<close>: the cleanup of the
  previous run clears its timer, then the body runs.
\<close>

definition debounceEffect :: "real \<Rightarrow> real \<Rightarrow> edit_state \<Rightarrow> edit_state" where
  "debounceEffect now debounceMs s =
     (let s1 = s\<lparr>timer := None\<rparr>
      in if \<not> editorReady s1 then s1
         else if markdown s1 = lastMarkdownFromEditorRef s1 then s1
         else s1\<lparr>timer := Some (now + debounceMs, markdown s1)\<rparr>)"

text \<open>
  \<open>setMarkdown\<close> with the commit that follows it: React skips the render when the
  state is unchanged; otherwise the effects that depend on \<open>markdown\<close> run, first the one
  that copies it to \<open>markdownRef\<close>, then the debounce effect. A state update is committed
  before the next event is handled.
\<close>

definition setMarkdown :: "real \<Rightarrow> real \<Rightarrow> jsstring \<Rightarrow> edit_state \<Rightarrow> edit_state" where
  "setMarkdown now debounceMs text s =
     (if text = markdown s then s
      else debounceEffect now debounceMs (s\<lparr>markdown := text, markdownRef := text\<rparr>))"

text \<open>The listener registered with \<^verbatim>\<open>markdownUpdated\<close>.\<close>

definition markdownUpdated :: "real \<Rightarrow> real \<Rightarrow> jsstring \<Rightarrow> edit_state \<Rightarrow> edit_state" where
  "markdownUpdated now debounceMs nextMarkdown s =
     (let s1 = s\<lparr>lastMarkdownFromEditorRef := nextMarkdown\<rparr>
      in if applyingFromSourceRef s1 then s1
         else if nextMarkdown = markdownRef s1 then s1
         else setMarkdown now debounceMs nextMarkdown s1)"

text \<open>
  The callback of the debounce timer. The engine is a parameter: \<open>engine md\<close> lists the
  texts it passes to the \<^verbatim>\<open>markdownUpdated\<close> listener synchronously, while
  \<^verbatim>\<open>replaceAll(md, true)\<close> runs.
\<close>

definition debounceTimerFired ::
  "real \<Rightarrow> real \<Rightarrow> (jsstring \<Rightarrow> jsstring list) \<Rightarrow> edit_state \<Rightarrow> edit_state" where
  "debounceTimerFired now debounceMs engine s =
     (case timer s of
        None \<Rightarrow> s
      | Some (due, md) \<Rightarrow>
          (let s1 = s\<lparr>timer := None\<rparr>
           in if \<not> editorReady s1 then s1
              else
                (let s2 = s1\<lparr>applyingFromSourceRef := True\<rparr>;
                     s3 = s2\<lparr>replaceCalls := replaceCalls s2 @ [(now, md)]\<rparr>;
                     s4 = foldl (\<lambda>st nxt. markdownUpdated now debounceMs nxt st) s3 (engine md)
                 in s4\<lparr>microtasks := microtasks s4 + 1\<rparr>)))"

text \<open>The microtask queued by the \<^verbatim>\<open>finally\<close> block.\<close>

definition runMicrotask :: "edit_state \<Rightarrow> edit_state" where
  "runMicrotask s =
     (if microtasks s = 0 then s
      else s\<lparr>applyingFromSourceRef := False, microtasks := microtasks s - 1\<rparr>)"

text \<open>
  Time passes up to \<open>now\<close>: a timer that is due fires at its due time, and the microtask
  it queued runs right after it.
\<close>

definition advanceTo ::
  "real \<Rightarrow> real \<Rightarrow> (jsstring \<Rightarrow> jsstring list) \<Rightarrow> edit_state \<Rightarrow> edit_state" where
  "advanceTo now debounceMs engine s =
     (case timer s of
        None \<Rightarrow> s
      | Some (due, md) \<Rightarrow>
          if due \<le> now then runMicrotask (debounceTimerFired due debounceMs engine s) else s)"

text \<open>
  A run of changes of the source pane, each with its time: \<^verbatim>\<open>onChange\<close> calls
  \<^verbatim>\<open>setMarkdown(e.currentTarget.value)\<close>.
\<close>

fun sourceEdits ::
  "real \<Rightarrow> (jsstring \<Rightarrow> jsstring list) \<Rightarrow> (real \<times> jsstring) list \<Rightarrow> edit_state \<Rightarrow> edit_state" where
  "sourceEdits debounceMs engine [] s = s"
| "sourceEdits debounceMs engine ((t, text) # rest) s =
     sourceEdits debounceMs engine rest
       (setMarkdown t debounceMs text (advanceTo t debounceMs engine s))"

text \<open>
  \<open>rapid\<close>: every change comes less than the debounce window after the one before it.
  \<open>changing\<close>: every change sets a text that differs from the current one.
\<close>

fun rapid :: "real \<Rightarrow> (real \<times> jsstring) list \<Rightarrow> bool" where
  "rapid debounceMs [] = True"
| "rapid debounceMs [c] = True"
| "rapid debounceMs (c1 # c2 # cs) = (fst c2 - fst c1 < debounceMs \<and> rapid debounceMs (c2 # cs))"

fun changing :: "jsstring \<Rightarrow> (real \<times> jsstring) list \<Rightarrow> bool" where
  "changing cur [] = True"
| "changing cur ((t, text) # cs) = (text \<noteq> cur \<and> changing text cs)"

subsection \<open>Auxiliary notions for the proofs\<close>



text \<open>The two stop sequences that \<open>mapScrollTop\<close> resamples, and their common length.\<close>

definition fromSide :: "real list \<Rightarrow> real \<Rightarrow> real list" where
  "fromSide stops mx = (if length stops \<ge> 2 then stops else [0, mx])"



text \<open>The maximum scroll offset of a pane, \<^verbatim>\<open>Math.max(0, el.scrollHeight - el.clientHeight)\<close>.\<close>

definition maxScroll :: "element \<Rightarrow> real" where
  "maxScroll el = max 0 (scrollHeight el - clientHeight el)"

subsection \<open>Example states\<close>

text \<open>
  Two panes with a scroll range of 400 and 500 pixels, the source pane scrolled to 100,
  with the stops of the first end-to-end scenario and no lock.
\<close>

definition exampleSync :: sync_state where
  "exampleSync =
     \<lparr>sourceRef = Some \<lparr>scrollHeight = 600, clientHeight = 200, scrollTop = 100,
                         rectTop = 0, lineHeightCss = Some 20\<rparr>,
      wysiwygScrollRef = Some \<lparr>scrollHeight = 700, clientHeight = 200, scrollTop = 0,
                                rectTop = 0, lineHeightCss = None\<rparr>,
      stopsRef = \<lparr>sourceStops = [0, 100, 400], editorStops = [0, 50, 500]\<rparr>,
      pendingScrollsRef = (\<lambda>_. None),
      syncRafRef = False,
      syncLockRef = None,
      syncLockUntilRef = 0\<rparr>"

text \<open>
  An editor that holds the text \<open>a\<close>, with no timer pending; the engine \<open>echoEngine\<close>
  reports the text it was given while \<^verbatim>\<open>replaceAll\<close> runs.
\<close>

definition exampleEdit :: edit_state where
  "exampleEdit =
     \<lparr>markdown = [97], markdownRef = [97], applyingFromSourceRef = False,
      lastMarkdownFromEditorRef = [97], editorReady = True, timer = None,
      microtasks = 0, replaceCalls = []\<rparr>"

definition echoEngine :: "jsstring \<Rightarrow> jsstring list" where
  "echoEngine md = [md]"

text \<open>
  A rendered document of one top-level paragraph whose top is a quarter of a pixel above
  the end of the editor pane's scroll range in \<open>exampleSync\<close>.
\<close>

definition exampleView :: view where
  "exampleView = \<lparr>descendants = [(False, 0)], topLevel = [0], coordsAtPos = (\<lambda>_. Some (1999 / 4))\<rparr>"

section \<open>Properties of the piecewise mapper\<close>

subsection \<open>Arithmetic of clamping and interpolation\<close>

lemma clamp_bounds: "lo \<le> hi \<Longrightarrow> lo \<le> clamp v lo hi \<and> clamp v lo hi \<le> hi"
  by (simp add: clamp_def)

lemma clamp_mono: "v \<le> w \<Longrightarrow> clamp v lo hi \<le> clamp w lo hi"
  by (simp add: clamp_def min_def max_def)








subsection \<open>The interpolant\<close>






subsection \<open>Resampling is interpolation\<close>










subsection \<open>The segment scan\<close>






subsection \<open>The value within a segment\<close>





subsection \<open>The mapper in the general case\<close>





lemma fromSide_bounds:
  "\<forall>v \<in> set stops. 0 \<le> v \<and> v \<le> mx \<Longrightarrow> 0 \<le> mx \<Longrightarrow>
     \<forall>v \<in> set (fromSide stops mx). 0 \<le> v \<and> v \<le> mx"
  by (simp add: fromSide_def)




subsection \<open>Claims about the mapper\<close>

text \<open>
  Claim C1. With \<open>fromStops = [0, 100, 400]\<close>, \<open>toStops = [0, 50, 500]\<close>, \<open>fromMax = 400\<close>
  and \<open>toMax = 500\<close>, the mapper returns exactly 50 at offset 100, and at offset 250 a
  value strictly between 50 and 500.
\<close>

theorem C1_scenario_landmark:
  "mapScrollTop 100 [0, 100, 400] [0, 50, 500] 400 500 = 50
   \<and> 50 < mapScrollTop 250 [0, 100, 400] [0, 50, 500] 400 500
   \<and> mapScrollTop 250 [0, 100, 400] [0, 50, 500] 400 500 < 500"
  by (simp add: mapScrollTop_def resampleStops_def clamp_def Let_def)










section \<open>Properties of the scroll sync controller\<close>

text \<open>
  Claim C5. A scroll event that arrives at one pane while the other pane holds a lock
  that has not expired changes nothing: the handler returns the state it was given, so
  the lock is not acquired or modified, no scroll write is recorded for either pane, and
  no frame is requested; the lock check itself answers that the pane is locked out.
\<close>

theorem C5_echo_suppressed:
  assumes "now \<le> syncLockUntilRef s"
  shows "(syncLockRef s = Some Source \<longrightarrow>
            isLockedByOther Editor now s = (True, s) \<and> syncEditorToSource now now' s = s)
       \<and> (syncLockRef s = Some Editor \<longrightarrow>
            isLockedByOther Source now s = (True, s) \<and> syncSourceToEditor now now' s = s)"
  using assms by (simp add: syncEditorToSource_def syncSourceToEditor_def isLockedByOther_def)

theorem C5_echo_suppressed_witness:
  "(100 :: real) \<le> syncLockUntilRef (syncSourceToEditor 0 0 exampleSync)
   \<and> syncLockRef (syncSourceToEditor 0 0 exampleSync) = Some Source
   \<and> pendingScrollsRef (syncSourceToEditor 0 0 exampleSync) Editor = Some 50
   \<and> syncEditorToSource 100 100 (syncSourceToEditor 0 0 exampleSync)
       = syncSourceToEditor 0 0 exampleSync"
proof -
  have m: "mapScrollTop 100 [0, 100, 400] [0, 50, 500] 400 500 = 50"
    by (simp add: mapScrollTop_def resampleStops_def clamp_def Let_def)
  have a: "syncLockUntilRef (syncSourceToEditor 0 0 exampleSync) = 260"
    and b: "syncLockRef (syncSourceToEditor 0 0 exampleSync) = Some Source"
    and c: "pendingScrollsRef (syncSourceToEditor 0 0 exampleSync) Editor = Some 50"
    by (simp_all add: syncSourceToEditor_def isLockedByOther_def exampleSync_def
        scheduleScrollTop_def acquireLock_def Let_def m)
  show ?thesis
    using C5_echo_suppressed [of 100 "syncSourceToEditor 0 0 exampleSync" 100] a b c by simp
qed

text \<open>
  Claim C6. A lock acquired at time \<open>T\<close> with window \<open>W\<close> is treated as unlocked by
  every check at a time after \<open>T + W\<close>: \<open>isLockedByOther\<close> answers false for either
  pane and clears the holder. A scroll event of either pane is then not suppressed: with
  both elements present, the handler records the write for the other pane and takes the
  lock for its own.
\<close>

theorem C6_lock_expiry:
  assumes "T + W < now"
  shows "isLockedByOther who now (acquireLock holder T W s)
           = (False, (acquireLock holder T W s)\<lparr>syncLockRef := None\<rparr>)
       \<and> (sourceRef s \<noteq> None \<and> wysiwygScrollRef s \<noteq> None \<longrightarrow>
            pendingScrollsRef (syncEditorToSource now now' (acquireLock holder T W s)) Source \<noteq> None
            \<and> syncLockRef (syncEditorToSource now now' (acquireLock holder T W s)) = Some Editor
            \<and> pendingScrollsRef (syncSourceToEditor now now' (acquireLock holder T W s)) Editor \<noteq> None
            \<and> syncLockRef (syncSourceToEditor now now' (acquireLock holder T W s)) = Some Source)"
  using assms
  by (auto simp: isLockedByOther_def acquireLock_def syncEditorToSource_def
      syncSourceToEditor_def scheduleScrollTop_def Let_def)

theorem C6_lock_expiry_witness:
  "(0 :: real) + 260 < 261
   \<and> sourceRef exampleSync \<noteq> None \<and> wysiwygScrollRef exampleSync \<noteq> None
   \<and> fst (isLockedByOther Editor 261 (acquireLock Source 0 260 exampleSync)) = False
   \<and> syncLockRef (snd (isLockedByOther Editor 261 (acquireLock Source 0 260 exampleSync))) = None
   \<and> pendingScrollsRef (syncEditorToSource 261 261 (acquireLock Source 0 260 exampleSync)) Source
       \<noteq> None
   \<and> syncLockRef (syncEditorToSource 261 261 (acquireLock Source 0 260 exampleSync)) = Some Editor"
proof -
  have e: "sourceRef exampleSync \<noteq> None \<and> wysiwygScrollRef exampleSync \<noteq> None"
    by (simp add: exampleSync_def)
  show ?thesis
    using C6_lock_expiry [of 0 260 261 Editor Source exampleSync 261] e by simp
qed

section \<open>Properties of the edit propagation controller\<close>

lemma markdownUpdated_applying:
  "applyingFromSourceRef s \<Longrightarrow>
     markdownUpdated now debounceMs nxt s = s\<lparr>lastMarkdownFromEditorRef := nxt\<rparr>"
  by (simp add: markdownUpdated_def Let_def)

lemma foldl_markdownUpdated_applying:
  "applyingFromSourceRef s \<Longrightarrow>
     foldl (\<lambda>st nxt. markdownUpdated now debounceMs nxt st) s texts
       = s\<lparr>lastMarkdownFromEditorRef := last (lastMarkdownFromEditorRef s # texts)\<rparr>"
proof (induction texts arbitrary: s)
  case Nil
  then show ?case by simp
next
  case (Cons x xs)
  have "applyingFromSourceRef (s\<lparr>lastMarkdownFromEditorRef := x\<rparr>)" using Cons.prems by simp
  from Cons.IH [OF this] show ?case
    using Cons.prems by (simp add: markdownUpdated_applying)
qed

lemma debounceTimerFired_result:
  assumes "timer s = Some (due, md)" "editorReady s"
  shows "debounceTimerFired now debounceMs engine s =
     s\<lparr>timer := None, applyingFromSourceRef := True,
       replaceCalls := replaceCalls s @ [(now, md)],
       lastMarkdownFromEditorRef := last (lastMarkdownFromEditorRef s # engine md),
       microtasks := microtasks s + 1\<rparr>"
  using assms
  by (simp add: debounceTimerFired_def Let_def foldl_markdownUpdated_applying)

text \<open>
  Claim C4. The \<^verbatim>\<open>markdownUpdated\<close> handler does not update the source document while
  the applying-from-source flag is set or when the emitted text equals the tracked
  markdown: it only records the emitted text. The timer callback sets the flag before
  \<^verbatim>\<open>replaceAll\<close>, so whatever the engine emits while the replace runs leaves the
  source document as it was; the flag is still set when the callback returns and is
  cleared by the microtask it queued.
\<close>

theorem C4_echo_free_edit_loop:
  "(applyingFromSourceRef s \<or> nextMarkdown = markdownRef s \<longrightarrow>
      markdownUpdated now debounceMs nextMarkdown s
        = s\<lparr>lastMarkdownFromEditorRef := nextMarkdown\<rparr>)
   \<and> (timer s = Some (due, md) \<and> editorReady s \<longrightarrow>
        markdown (debounceTimerFired now debounceMs engine s) = markdown s
        \<and> markdownRef (debounceTimerFired now debounceMs engine s) = markdownRef s
        \<and> replaceCalls (debounceTimerFired now debounceMs engine s) = replaceCalls s @ [(now, md)]
        \<and> applyingFromSourceRef (debounceTimerFired now debounceMs engine s)
        \<and> \<not> applyingFromSourceRef (runMicrotask (debounceTimerFired now debounceMs engine s)))"
proof (intro conjI impI)
  assume "applyingFromSourceRef s \<or> nextMarkdown = markdownRef s"
  then show "markdownUpdated now debounceMs nextMarkdown s
      = s\<lparr>lastMarkdownFromEditorRef := nextMarkdown\<rparr>"
    by (auto simp: markdownUpdated_def Let_def)
next
  assume h: "timer s = Some (due, md) \<and> editorReady s"
  note r = debounceTimerFired_result [of s due md now debounceMs engine]
  show "markdown (debounceTimerFired now debounceMs engine s) = markdown s"
    using h r by simp
  show "markdownRef (debounceTimerFired now debounceMs engine s) = markdownRef s"
    using h r by simp
  show "replaceCalls (debounceTimerFired now debounceMs engine s) = replaceCalls s @ [(now, md)]"
    using h r by simp
  show "applyingFromSourceRef (debounceTimerFired now debounceMs engine s)"
    using h r by simp
  show "\<not> applyingFromSourceRef (runMicrotask (debounceTimerFired now debounceMs engine s))"
    using h r by (simp add: runMicrotask_def)
qed

theorem C4_echo_free_edit_loop_witness:
  "timer (setMarkdown 0 250 [97, 98] exampleEdit) = Some (250, [97, 98])
   \<and> editorReady (setMarkdown 0 250 [97, 98] exampleEdit)
   \<and> [97, 98] = markdownRef (setMarkdown 0 250 [97, 98] exampleEdit)
   \<and> markdownUpdated 100 250 [97, 98] (setMarkdown 0 250 [97, 98] exampleEdit)
       = (setMarkdown 0 250 [97, 98] exampleEdit)\<lparr>lastMarkdownFromEditorRef := [97, 98]\<rparr>
   \<and> markdown (debounceTimerFired 250 250 echoEngine (setMarkdown 0 250 [97, 98] exampleEdit))
       = [97, 98]
   \<and> replaceCalls (debounceTimerFired 250 250 echoEngine (setMarkdown 0 250 [97, 98] exampleEdit))
       = [(250, [97, 98])]
   \<and> applyingFromSourceRef
        (debounceTimerFired 250 250 echoEngine (setMarkdown 0 250 [97, 98] exampleEdit))
   \<and> \<not> applyingFromSourceRef (runMicrotask
        (debounceTimerFired 250 250 echoEngine (setMarkdown 0 250 [97, 98] exampleEdit)))"
proof -
  define s where "s = setMarkdown 0 250 [97, 98] exampleEdit"
  have s: "s = exampleEdit\<lparr>markdown := [97, 98], markdownRef := [97, 98],
      timer := Some (250, [97, 98])\<rparr>"
    by (simp add: s_def setMarkdown_def debounceEffect_def exampleEdit_def Let_def)
  have t: "timer s = Some (250, [97, 98])" and e: "editorReady s"
    and m: "[97, 98] = markdownRef s" and md: "markdown s = [97, 98]"
    and rc: "replaceCalls s = []"
    by (simp_all add: s exampleEdit_def)
  show ?thesis
    unfolding s_def [symmetric]
    using C4_echo_free_edit_loop [of s "[97, 98]" 100 250 250 "[97, 98]" echoEngine]
      C4_echo_free_edit_loop [of s "[97, 98]" 250 250 250 "[97, 98]" echoEngine]
      t e m md rc by simp
qed

lemma setMarkdown_changed:
  assumes "editorReady s" "text \<noteq> markdown s"
  shows "setMarkdown now debounceMs text s =
     s\<lparr>markdown := text, markdownRef := text,
       timer := (if text = lastMarkdownFromEditorRef s then None
                 else Some (now + debounceMs, text))\<rparr>"
  using assms by (simp add: setMarkdown_def debounceEffect_def Let_def)

lemma advanceTo_not_due:
  assumes "case timer s of None \<Rightarrow> True | Some (due, md) \<Rightarrow> now < due"
  shows "advanceTo now debounceMs engine s = s"
  using assms by (auto simp: advanceTo_def split: option.splits)

lemma sourceEdits_result:
  assumes "editorReady s" "changes \<noteq> []" "rapid debounceMs changes"
    and "changing (markdown s) changes"
    and "case timer s of None \<Rightarrow> True | Some (due, md) \<Rightarrow> fst (hd changes) < due"
  shows "sourceEdits debounceMs engine changes s =
     s\<lparr>markdown := snd (last changes), markdownRef := snd (last changes),
       timer := (if snd (last changes) = lastMarkdownFromEditorRef s then None
                 else Some (fst (last changes) + debounceMs, snd (last changes)))\<rparr>"
  using assms
proof (induction changes arbitrary: s)
  case Nil
  then show ?case by simp
next
  case (Cons c rest)
  obtain t tx where c: "c = (t, tx)" by (cases c)
  have adv: "advanceTo t debounceMs engine s = s"
    using Cons.prems(5) c by (intro advanceTo_not_due) (auto split: option.splits)
  have neq: "tx \<noteq> markdown s" using Cons.prems(4) c by simp
  define s' where "s' = setMarkdown t debounceMs tx s"
  have s': "s' = s\<lparr>markdown := tx, markdownRef := tx,
       timer := (if tx = lastMarkdownFromEditorRef s then None
                 else Some (t + debounceMs, tx))\<rparr>"
    unfolding s'_def using Cons.prems(1) neq by (rule setMarkdown_changed)
  have step: "sourceEdits debounceMs engine (c # rest) s = sourceEdits debounceMs engine rest s'"
    by (simp add: c adv s'_def)
  show ?case
  proof (cases rest)
    case Nil
    then show ?thesis using step s' c by simp
  next
    case (Cons c2 rest2)
    have r: "rapid debounceMs rest" and gap: "fst c2 - t < debounceMs"
      using Cons.prems(3) c Cons by simp_all
    have ch: "changing (markdown s') rest" using Cons.prems(4) c s' by simp
    have tm: "case timer s' of None \<Rightarrow> True | Some (due, md) \<Rightarrow> fst (hd rest) < due"
      using gap Cons s' by (auto split: option.splits)
    have er: "editorReady s'" using Cons.prems(1) s' by simp
    have ne: "rest \<noteq> []" using Cons by simp
    have "sourceEdits debounceMs engine rest s' =
       s'\<lparr>markdown := snd (last rest), markdownRef := snd (last rest),
         timer := (if snd (last rest) = lastMarkdownFromEditorRef s' then None
                   else Some (fst (last rest) + debounceMs, snd (last rest)))\<rparr>"
      using er ne r ch tm by (rule Cons.IH)
    then show ?thesis using step ne s' by simp
  qed
qed

text \<open>
  Claim C3, as stated, fails: when the final text equals the text last received from
  the engine, the debounce effect returns before it sets a timer, and no replace is
  issued. Here the text \<open>a\<close> is changed to \<open>ab\<close> and, 50 ms later, back to \<open>a\<close>.
\<close>

theorem C3_debounce_counterexample:
  "rapid 250 [(0, [97, 98]), (50, [97])]
   \<and> changing (markdown exampleEdit) [(0, [97, 98]), (50, [97])]
   \<and> replaceCalls (advanceTo 1000 250 echoEngine
        (sourceEdits 250 echoEngine [(0, [97, 98]), (50, [97])] exampleEdit)) = []"
  by (simp add: exampleEdit_def advanceTo_def setMarkdown_def debounceEffect_def Let_def)

text \<open>
  Claim C3, amended. Take a run of one or more changes of the source text, each to a
  text other than the current one and each less than the debounce window after the
  one before, that starts with the engine present and no timer pending. If the final
  text differs from the text last received from the engine, exactly one \<^verbatim>\<open>replaceAll\<close>
  is issued: it fires one debounce window after the final change and carries the final
  text. If the final text equals it, none is issued. No timer is left pending.
\<close>

theorem C3_debounce_coalescing:
  assumes "editorReady s" "timer s = None" "changes \<noteq> []"
    and "rapid debounceMs changes" "changing (markdown s) changes"
    and "fst (last changes) + debounceMs \<le> T"
  shows "replaceCalls (advanceTo T debounceMs engine (sourceEdits debounceMs engine changes s))
           = replaceCalls s @
             (if snd (last changes) = lastMarkdownFromEditorRef s then []
              else [(fst (last changes) + debounceMs, snd (last changes))])
       \<and> replaceCalls (sourceEdits debounceMs engine changes s) = replaceCalls s
       \<and> timer (advanceTo T debounceMs engine (sourceEdits debounceMs engine changes s)) = None"
proof -
  define s' where "s' = sourceEdits debounceMs engine changes s"
  have s': "s' = s\<lparr>markdown := snd (last changes), markdownRef := snd (last changes),
       timer := (if snd (last changes) = lastMarkdownFromEditorRef s then None
                 else Some (fst (last changes) + debounceMs, snd (last changes)))\<rparr>"
    unfolding s'_def using assms(1,3,4,5) assms(2) by (intro sourceEdits_result) simp_all
  show ?thesis
  proof (cases "snd (last changes) = lastMarkdownFromEditorRef s")
    case True
    then have "timer s' = None" using s' by simp
    then have "advanceTo T debounceMs engine s' = s'" by (simp add: advanceTo_def)
    then show ?thesis unfolding s'_def [symmetric] using s' True by simp
  next
    case False
    then have tm: "timer s' = Some (fst (last changes) + debounceMs, snd (last changes))"
      using s' by simp
    have er: "editorReady s'" using s' assms(1) by simp
    have "advanceTo T debounceMs engine s'
        = runMicrotask (debounceTimerFired (fst (last changes) + debounceMs) debounceMs engine s')"
      using tm assms(6) by (simp add: advanceTo_def)
    then show ?thesis
      unfolding s'_def [symmetric]
      using debounceTimerFired_result [OF tm er, of "fst (last changes) + debounceMs" debounceMs engine]
        s' False
      by (simp add: runMicrotask_def)
  qed
qed

theorem C3_debounce_coalescing_witness:
  "editorReady exampleEdit \<and> timer exampleEdit = None
   \<and> rapid 250 [(0, [97, 98]), (50, [97, 98, 99]), (100, [97, 98, 99, 100])]
   \<and> changing (markdown exampleEdit) [(0, [97, 98]), (50, [97, 98, 99]), (100, [97, 98, 99, 100])]
   \<and> replaceCalls (advanceTo 1000 250 echoEngine
        (sourceEdits 250 echoEngine
           [(0, [97, 98]), (50, [97, 98, 99]), (100, [97, 98, 99, 100])] exampleEdit))
       = [(350, [97, 98, 99, 100])]"
proof -
  have e: "editorReady exampleEdit" "timer exampleEdit = None" "replaceCalls exampleEdit = []"
    "markdown exampleEdit = [97]" "lastMarkdownFromEditorRef exampleEdit = [97]"
    by (simp_all add: exampleEdit_def)
  show ?thesis
    using C3_debounce_coalescing [of exampleEdit
        "[(0, [97, 98]), (50, [97, 98, 99]), (100, [97, 98, 99, 100])]" 250 1000 echoEngine] e
    by simp
qed

section \<open>Properties of the stop extraction\<close>

lemma extractHeadingLineStarts_sorted: "sorted (extractHeadingLineStarts md)"
  by (simp add: extractHeadingLineStarts_def Let_def sorted_wrt_filter)

lemma extractBlockLineStarts_sorted: "sorted (extractBlockLineStarts md)"
  by (simp add: extractBlockLineStarts_def Let_def)

lemma line_offsets_mono:
  assumes "0 \<le> mx" "a \<le> b"
  shows "clamp (real a * lh) 0 mx \<le> clamp (real b * lh) 0 mx"
proof (cases "0 \<le> lh")
  case True
  then have "real a * lh \<le> real b * lh" using assms(2) by (simp add: mult_right_mono)
  then show ?thesis by (rule clamp_mono)
next
  case False
  then have "real a * lh \<le> 0" "real b * lh \<le> 0" by (simp_all add: mult_nonneg_nonpos)
  then show ?thesis using assms(1) by (simp add: clamp_def)
qed

lemma line_offsets_sorted:
  assumes "sorted lines" "0 \<le> mx"
  shows "sorted (map (\<lambda>line. clamp (real line * lh) 0 mx) lines)"
proof -
  have "sorted_wrt (\<lambda>a b. clamp (real a * lh) 0 mx \<le> clamp (real b * lh) 0 mx) lines"
    using assms(1)
    by (rule sorted_wrt_mono_rel [rotated]) (simp add: line_offsets_mono assms(2))
  then show ?thesis by (simp add: sorted_map)
qed

lemma bracketed_sorted:
  assumes "sorted mid" "\<forall>v \<in> set mid. 0 \<le> v \<and> v \<le> mx" "0 \<le> mx"
  shows "sorted ([0] @ mid @ [mx])"
  using assms by (simp add: sorted_append)

lemma keepNonDecreasing_sorted:
  assumes "sorted arr"
  shows "keepNonDecreasing arr = arr"
proof -
  have "idx = 0 \<or> arr ! idx \<ge> nth_or arr (int idx - 1) 0" if "idx < length arr" for idx
  proof (cases "idx = 0")
    case True
    then show ?thesis by simp
  next
    case False
    then have "nth_or arr (int idx - 1) 0 = arr ! (idx - 1)"
      using that by (simp add: nth_or_def nat_diff_distrib')
    moreover have "arr ! (idx - 1) \<le> arr ! idx"
      using assms that by (simp add: sorted_iff_nth_mono)
    ultimately show ?thesis by simp
  qed
  then have "filter (\<lambda>idx. idx = 0 \<or> arr ! idx \<ge> nth_or arr (int idx - 1) 0) [0..<length arr]
      = [0..<length arr]"
    by (intro filter_True) simp
  then show ?thesis by (simp add: keepNonDecreasing_def map_nth)
qed

lemma dedupeStep_cases:
  assumes "acc \<noteq> []"
  shows "dedupeStep acc x = (if \<bar>x - last acc\<bar> > 0.5 then acc @ [x] else acc)"
  using assms by (simp add: dedupeStep_def last_conv_nth)

lemma dedupe_foldl:
  assumes "acc \<noteq> []" "sorted (acc @ xs)"
  shows "foldl dedupeStep acc xs \<noteq> []
       \<and> hd (foldl dedupeStep acc xs) = hd acc
       \<and> sorted (foldl dedupeStep acc xs)
       \<and> last (foldl dedupeStep acc xs) \<le> last (acc @ xs)
       \<and> last (acc @ xs) - 0.5 \<le> last (foldl dedupeStep acc xs)"
  using assms
proof (induction xs arbitrary: acc)
  case Nil
  then show ?case by simp
next
  case (Cons x xs)
  define acc' where "acc' = dedupeStep acc x"
  have acc': "acc' = (if \<bar>x - last acc\<bar> > 0.5 then acc @ [x] else acc)"
    unfolding acc'_def using Cons.prems(1) by (rule dedupeStep_cases)
  have ne: "acc' \<noteq> []" using acc' Cons.prems(1) by simp
  have hd: "hd acc' = hd acc" using acc' Cons.prems(1) by simp
  have la: "last acc \<le> x"
    using Cons.prems by (simp add: sorted_append)
  have srt: "sorted (acc' @ xs)"
  proof (cases "\<bar>x - last acc\<bar> > 0.5")
    case True
    then show ?thesis using acc' Cons.prems(2) by simp
  next
    case False
    then show ?thesis using acc' Cons.prems(2) by (simp add: sorted_append)
  qed
  note ih = Cons.IH [OF ne srt]
  have step: "foldl dedupeStep acc (x # xs) = foldl dedupeStep acc' xs"
    by (simp add: acc'_def)
  show ?case
  proof (cases xs)
    case Nil
    have "last acc' \<le> x \<and> x - 0.5 \<le> last acc'"
      using acc' la by (auto simp: abs_if split: if_splits)
    then show ?thesis using step ih hd Nil by simp
  next
    case (Cons y ys)
    then have "last (acc' @ xs) = last (acc @ x # xs)" by simp
    then show ?thesis using step ih hd by simp
  qed
qed

lemma dedupeStops_invariant:
  assumes "sorted ys" "ys \<noteq> []"
  shows "dedupeStops ys \<noteq> [] \<and> hd (dedupeStops ys) = hd ys \<and> sorted (dedupeStops ys)
       \<and> last (dedupeStops ys) \<le> last ys \<and> last ys - 0.5 \<le> last (dedupeStops ys)"
proof -
  obtain y rest where ys: "ys = y # rest" using assms(2) by (cases ys) auto
  have "dedupeStops ys = foldl dedupeStep [y] rest"
    by (simp add: ys dedupeStops_def dedupeStep_def)
  moreover have "sorted ([y] @ rest)" using assms(1) ys by simp
  ultimately show ?thesis
    using dedupe_foldl [of "[y]" rest] ys by simp
qed

lemma editorAnchor_bounds:
  assumes "0 \<le> mx"
  shows "\<forall>v \<in> set (editorAnchor vw el mx pos). 0 \<le> v \<and> v \<le> mx"
  using assms clamp_bounds [of 0 mx]
  by (auto simp: editorAnchor_def split: option.splits)

lemma sorted_hd_least:
  fixes ys :: "real list"
  assumes "sorted ys" "x \<in> set ys" "\<forall>v \<in> set ys. x \<le> v"
  shows "hd ys = x"
proof -
  have ne: "ys \<noteq> []" using assms(2) by auto
  then have "hd ys \<in> set ys" by simp
  then have "x \<le> hd ys" using assms(3) by blast
  moreover have "hd ys \<le> x"
    using assms(1,2) ne by (cases ys) auto
  ultimately show ?thesis by simp
qed

lemma sorted_last_greatest:
  fixes ys :: "real list"
  assumes "sorted ys" "x \<in> set ys" "\<forall>v \<in> set ys. v \<le> x"
  shows "last ys = x"
proof -
  have ne: "ys \<noteq> []" using assms(2) by auto
  then have "last ys \<in> set ys" by simp
  then have "last ys \<le> x" using assms(3) by blast
  moreover have "x \<le> last ys"
  proof -
    obtain i where i: "i < length ys" "ys ! i = x"
      using assms(2) by (auto simp: in_set_conv_nth)
    have "ys ! i \<le> ys ! (length ys - 1)"
      using assms(1) i by (intro sorted_nth_mono) simp_all
    then show ?thesis using i ne by (simp add: last_conv_nth)
  qed
  ultimately show ?thesis by simp
qed

lemma recomputeStops_stops:
  assumes "sourceRef s = Some sourceEl" "wysiwygScrollRef s = Some editorEl"
  shows "\<exists>lines anchors.
       sorted lines
     \<and> (\<forall>a \<in> set anchors. 0 \<le> a \<and> a \<le> maxScroll editorEl)
     \<and> sourceStops (stopsRef (recomputeStops md (Some v) s))
         = dedupeStops (keepNonDecreasing
             ([0] @ map (\<lambda>line. clamp (real line * getLineHeightPx sourceEl) 0 (maxScroll sourceEl)) lines
                  @ [maxScroll sourceEl]))
     \<and> editorStops (stopsRef (recomputeStops md (Some v) s))
         = dedupeStops (sort ([0] @ anchors @ [maxScroll editorEl]))"
proof -
  define lines where "lines =
    (if length (extractHeadingLineStarts md) \<ge> 2 then extractHeadingLineStarts md
     else extractBlockLineStarts md)"
  define headingStops where "headingStops =
    concat (map (\<lambda>(heading, pos).
      if heading then editorAnchor v editorEl (maxScroll editorEl) pos else []) (descendants v))"
  define blockStops where "blockStops =
    concat (map (editorAnchor v editorEl (maxScroll editorEl)) (topLevel v))"
  define anchors where "anchors = (if length headingStops \<ge> 2 then headingStops else blockStops)"
  have mx: "0 \<le> maxScroll editorEl" by (simp add: maxScroll_def)
  have sl: "sorted lines"
    by (simp add: lines_def extractHeadingLineStarts_sorted extractBlockLineStarts_sorted)
  have hb: "\<forall>a \<in> set headingStops. 0 \<le> a \<and> a \<le> maxScroll editorEl"
    using editorAnchor_bounds [OF mx, of v editorEl]
    by (auto simp: headingStops_def split: if_splits)
  have bb: "\<forall>a \<in> set blockStops. 0 \<le> a \<and> a \<le> maxScroll editorEl"
    using editorAnchor_bounds [OF mx, of v editorEl] by (auto simp: blockStops_def)
  have ab: "\<forall>a \<in> set anchors. 0 \<le> a \<and> a \<le> maxScroll editorEl"
    using hb bb by (simp add: anchors_def)
  have src: "sourceStops (stopsRef (recomputeStops md (Some v) s))
      = dedupeStops (keepNonDecreasing
          ([0] @ map (\<lambda>line. clamp (real line * getLineHeightPx sourceEl) 0 (maxScroll sourceEl)) lines
               @ [maxScroll sourceEl]))"
    using assms by (simp add: recomputeStops_def Let_def lines_def maxScroll_def)
  have ed: "editorStops (stopsRef (recomputeStops md (Some v) s))
      = dedupeStops (sort ([0] @ anchors @ [maxScroll editorEl]))"
    using assms
    unfolding recomputeStops_def Let_def anchors_def headingStops_def blockStops_def
      maxScroll_def
    by simp
  show ?thesis using sl ab src ed by blast
qed

text \<open>
  Claim C2, as stated, fails: the reducer drops a stop that is within half a pixel of the
  last kept one, and the pane's maximum is the last candidate. With an anchor at 499.75
  and an editor maximum of 500, the editor stops end at 499.75.
\<close>

theorem C2_stops_counterexample:
  "map_option maxScroll (wysiwygScrollRef exampleSync) = Some 500
   \<and> editorStops (stopsRef (recomputeStops [97, 10, 10, 98] (Some exampleView) exampleSync))
       = [0, 1999 / 4]
   \<and> last (editorStops (stopsRef (recomputeStops [97, 10, 10, 98] (Some exampleView) exampleSync)))
       \<noteq> 500"
  by (simp add: recomputeStops_def exampleSync_def exampleView_def Let_def editorAnchor_def
      clamp_def dedupeStops_def dedupeStep_def maxScroll_def)

text \<open>
  Claim C2, amended. After a run of \<open>recomputeStops\<close> with both panes and the view
  present, \<open>sourceStops\<close> and \<open>editorStops\<close> are each non-empty and non-decreasing,
  their first element is 0, and their last element is at most the pane's maximum scroll
  offset and at most half a pixel below it, for every document text, line height and
  set of anchor coordinates.
\<close>

theorem C2_stops_invariant:
  assumes "sourceRef s = Some sourceEl" "wysiwygScrollRef s = Some editorEl"
  shows "sourceStops (stopsRef (recomputeStops md (Some v) s)) \<noteq> []
       \<and> sorted (sourceStops (stopsRef (recomputeStops md (Some v) s)))
       \<and> hd (sourceStops (stopsRef (recomputeStops md (Some v) s))) = 0
       \<and> last (sourceStops (stopsRef (recomputeStops md (Some v) s))) \<le> maxScroll sourceEl
       \<and> maxScroll sourceEl - 0.5 \<le> last (sourceStops (stopsRef (recomputeStops md (Some v) s)))
       \<and> editorStops (stopsRef (recomputeStops md (Some v) s)) \<noteq> []
       \<and> sorted (editorStops (stopsRef (recomputeStops md (Some v) s)))
       \<and> hd (editorStops (stopsRef (recomputeStops md (Some v) s))) = 0
       \<and> last (editorStops (stopsRef (recomputeStops md (Some v) s))) \<le> maxScroll editorEl
       \<and> maxScroll editorEl - 0.5 \<le> last (editorStops (stopsRef (recomputeStops md (Some v) s)))"
proof -
  obtain lines anchors where sl: "sorted lines"
    and ab: "\<forall>a \<in> set anchors. 0 \<le> a \<and> a \<le> maxScroll editorEl"
    and src: "sourceStops (stopsRef (recomputeStops md (Some v) s))
         = dedupeStops (keepNonDecreasing
             ([0] @ map (\<lambda>line. clamp (real line * getLineHeightPx sourceEl) 0 (maxScroll sourceEl)) lines
                  @ [maxScroll sourceEl]))"
    and ed: "editorStops (stopsRef (recomputeStops md (Some v) s))
         = dedupeStops (sort ([0] @ anchors @ [maxScroll editorEl]))"
    using recomputeStops_stops [OF assms, of md v] by blast
  define smax where "smax = maxScroll sourceEl"
  define emax where "emax = maxScroll editorEl"
  have sm: "0 \<le> smax" and em: "0 \<le> emax" by (simp_all add: smax_def emax_def maxScroll_def)
  define mid where "mid = map (\<lambda>line. clamp (real line * getLineHeightPx sourceEl) 0 smax) lines"
  define A where "A = [0] @ mid @ [smax]"
  define B where "B = sort ([0] @ anchors @ [emax])"
  have "sorted mid" unfolding mid_def using sl sm by (rule line_offsets_sorted)
  moreover have "\<forall>v \<in> set mid. 0 \<le> v \<and> v \<le> smax"
    using clamp_bounds [OF sm] by (auto simp: mid_def)
  ultimately have sA: "sorted A" unfolding A_def using sm by (intro bracketed_sorted)
  have kA: "keepNonDecreasing A = A" using sA by (rule keepNonDecreasing_sorted)
  have neA: "A \<noteq> []" and hdA: "hd A = 0" and lastA: "last A = smax"
    by (simp_all add: A_def)
  have sB: "sorted B" unfolding B_def by (rule sorted_sort)
  have "set B = set ([0] @ anchors @ [emax])" unfolding B_def by (rule set_sort)
  then have setB: "set B = insert 0 (insert emax (set anchors))" by auto
  have neB: "B \<noteq> []" using setB by auto
  have hdB: "hd B = 0"
    using sB setB ab em by (intro sorted_hd_least) (auto simp: emax_def)
  have lastB: "last B = emax"
    using sB setB ab em by (intro sorted_last_greatest) (auto simp: emax_def)
  have s: "sourceStops (stopsRef (recomputeStops md (Some v) s)) = dedupeStops A"
    using src kA by (simp add: A_def mid_def smax_def)
  have e: "editorStops (stopsRef (recomputeStops md (Some v) s)) = dedupeStops B"
    using ed by (simp add: B_def emax_def)
  show ?thesis
    unfolding s e smax_def [symmetric] emax_def [symmetric]
    using dedupeStops_invariant [OF sA neA] dedupeStops_invariant [OF sB neB]
      hdA lastA hdB lastB
    by simp
qed

theorem C2_stops_invariant_witness:
  "map_option maxScroll (sourceRef exampleSync) = Some 400
   \<and> map_option maxScroll (wysiwygScrollRef exampleSync) = Some 500
   \<and> sorted (sourceStops (stopsRef (recomputeStops [97, 10, 10, 98] (Some exampleView) exampleSync)))
   \<and> hd (sourceStops (stopsRef (recomputeStops [97, 10, 10, 98] (Some exampleView) exampleSync))) = 0
   \<and> last (sourceStops (stopsRef (recomputeStops [97, 10, 10, 98] (Some exampleView) exampleSync)))
       \<le> 400
   \<and> 400 - 0.5
       \<le> last (sourceStops (stopsRef (recomputeStops [97, 10, 10, 98] (Some exampleView) exampleSync)))
   \<and> sorted (editorStops (stopsRef (recomputeStops [97, 10, 10, 98] (Some exampleView) exampleSync)))
   \<and> hd (editorStops (stopsRef (recomputeStops [97, 10, 10, 98] (Some exampleView) exampleSync))) = 0
   \<and> last (editorStops (stopsRef (recomputeStops [97, 10, 10, 98] (Some exampleView) exampleSync)))
       \<le> 500
   \<and> 500 - 0.5
       \<le> last (editorStops (stopsRef (recomputeStops [97, 10, 10, 98] (Some exampleView) exampleSync)))"
proof -
  define se where "se = \<lparr>scrollHeight = 600, clientHeight = 200, scrollTop = 100,
                         rectTop = 0, lineHeightCss = Some (20 :: real)\<rparr>"
  define ee where "ee = \<lparr>scrollHeight = 700, clientHeight = 200, scrollTop = 0,
                         rectTop = 0, lineHeightCss = (None :: real option)\<rparr>"
  have r: "sourceRef exampleSync = Some se" "wysiwygScrollRef exampleSync = Some ee"
    by (simp_all add: exampleSync_def se_def ee_def)
  have m: "maxScroll se = 400" "maxScroll ee = 500"
    by (simp_all add: maxScroll_def se_def ee_def)
  show ?thesis
    using C2_stops_invariant [OF r, of "[97, 10, 10, 98]" exampleView] r m by simp
qed

end
